theory Spec2Isabelle
  imports Main "HOL-Library.Sublist"
begin

section \<open>JavaScript values and React elements\<close>

text \<open>
  The web client is TypeScript/React. Props objects are JavaScript objects, modelled as
  maps from property names to values; a missing property reads as \<open>undefined\<close>.
  Only the value shapes the modelled components handle are represented: booleans,
  strings and event handlers (a handler is named by a number).
\<close>

datatype jsval = Undefined | Null | JBool bool | JStr string | JFun nat

type_synonym jsobj = "string \<rightharpoonup> jsval"

text \<open>JavaScript truthiness, as used by \<open>||\<close>, \<open>&&\<close>, \<open>!\<close> and \<open>if\<close>.\<close>

fun truthy :: "jsval \<Rightarrow> bool" where
  "truthy Undefined = False"
| "truthy Null = False"
| "truthy (JBool b) = b"
| "truthy (JStr s) = (s \<noteq> [])"
| "truthy (JFun h) = True"

text \<open>\<open>a || b\<close> is \<open>a\<close> when \<open>a\<close> is truthy and \<open>b\<close> otherwise.\<close>

definition js_or :: "jsval \<Rightarrow> jsval \<Rightarrow> jsval" where
  "js_or a b = (if truthy a then a else b)"

text \<open>Property read: \<open>obj.k\<close> is \<open>undefined\<close> when the object has no property \<open>k\<close>.\<close>

definition get_prop :: "jsobj \<Rightarrow> string \<Rightarrow> jsval" where
  "get_prop obj k = (case obj k of None \<Rightarrow> Undefined | Some v \<Rightarrow> v)"

text \<open>A destructuring default \<open>{ k = d }\<close> applies exactly when the value read is \<open>undefined\<close>.\<close>

definition dflt :: "jsval \<Rightarrow> jsval \<Rightarrow> jsval" where
  "dflt d v = (if v = Undefined then d else v)"

text \<open>The rest of a destructuring pattern: the object without the named properties.\<close>

definition omit :: "string list \<Rightarrow> jsobj \<Rightarrow> jsobj" where
  "omit ks obj = (\<lambda>k. if k \<in> set ks then None else obj k)"

text \<open>String conversion inside a template literal.\<close>

fun to_str :: "jsval \<Rightarrow> string" where
  "to_str Undefined = ''undefined''"
| "to_str Null = ''null''"
| "to_str (JBool b) = (if b then ''true'' else ''false'')"
| "to_str (JStr s) = s"
| "to_str (JFun h) = ''function''"

text \<open>A rendered element: tag, attributes, children.\<close>

datatype node = Text string | Element string jsobj "node list"

fun attrs :: "node \<Rightarrow> jsobj" where
  "attrs (Text s) = Map.empty"
| "attrs (Element tag ps ks) = ps"

section \<open>The Button component (web/src/components/ui/Button.tsx)\<close>

definition base :: string where
  "base = ''inline-flex items-center justify-center rounded-lg font-medium transition disabled:opacity-50 disabled:cursor-not-allowed''"

definition sizes_table :: jsobj where
  "sizes_table = [''sm'' \<mapsto> JStr ''h-8 px-3 text-xs'',
                  ''md'' \<mapsto> JStr ''h-10 px-4 text-sm'',
                  ''lg'' \<mapsto> JStr ''h-11 px-5 text-base'']"

definition variants_table :: jsobj where
  "variants_table = [''primary'' \<mapsto> JStr ''bg-brand-600 text-white hover:bg-brand-700'',
                     ''secondary'' \<mapsto> JStr ''border bg-white hover:bg-gray-50'',
                     ''ghost'' \<mapsto> JStr ''hover:bg-gray-50'']"

definition spinner :: node where
  "spinner = Element ''svg''
     [''className'' \<mapsto> JStr ''-ml-0.5 mr-2 h-4 w-4 animate-spin'',
      ''viewBox'' \<mapsto> JStr ''0 0 24 24'',
      ''aria-hidden'' \<mapsto> JStr ''true'']
     [Element ''circle''
        [''className'' \<mapsto> JStr ''opacity-25'', ''cx'' \<mapsto> JStr ''12'', ''cy'' \<mapsto> JStr ''12'',
         ''r'' \<mapsto> JStr ''10'', ''stroke'' \<mapsto> JStr ''currentColor'', ''strokeWidth'' \<mapsto> JStr ''4''] [],
      Element ''path''
        [''className'' \<mapsto> JStr ''opacity-75'', ''fill'' \<mapsto> JStr ''currentColor'',
         ''d'' \<mapsto> JStr ''M4 12a8 8 0 018-8v4a4 4 0 00-4 4H4z''] []]"

text \<open>
  \<open>Button\<close> takes its props object and its children. The parameter pattern removes
  \<open>variant\<close>, \<open>size\<close>, \<open>className\<close> and \<open>children\<close>; line 16 then removes \<open>loading\<close>
  (default \<open>false\<close>) and \<open>disabled\<close>, and \<open>rest\<close> is what remains. In the JSX the spread
  \<open>{...rest}\<close> comes last, so a property of \<open>rest\<close> overrides an attribute written
  before it: that is the map override \<open>++\<close>. The class name is as the source computes it
  for \<open>variant\<close>, \<open>size\<close> and \<open>className\<close> of their declared types (strings, the first two
  among the keys of the tables).
\<close>

definition Button :: "jsobj \<Rightarrow> node list \<Rightarrow> node" where
  "Button p children =
     (let variant = dflt (JStr ''primary'') (get_prop p ''variant'');
          size = dflt (JStr ''md'') (get_prop p ''size'');
          className = dflt (JStr '''') (get_prop p ''className'');
          props = omit [''variant'', ''size'', ''className'', ''children''] p;
          loading = dflt (JBool False) (get_prop props ''loading'');
          disabled = get_prop props ''disabled'';
          rest = omit [''loading'', ''disabled''] props;
          sizes = get_prop sizes_table (to_str size);
          variants = get_prop variants_table (to_str variant)
      in Element ''button''
           ([''className'' \<mapsto> JStr (base @ '' '' @ to_str sizes @ '' '' @ to_str variants @ '' '' @ to_str className),
             ''disabled'' \<mapsto> js_or loading disabled] ++ rest)
           ((if truthy loading then [spinner] else []) @ children))"

text \<open>
  What a user click on a rendered element does: a \<open>button\<close> whose \<open>disabled\<close> attribute is
  truthy dispatches no click event; otherwise the \<open>onClick\<close> handler, if any, is invoked.
  The result is the handler invoked.
\<close>

definition click :: "node \<Rightarrow> nat option" where
  "click n = (if truthy (get_prop (attrs n) ''disabled'') then None
              else (case get_prop (attrs n) ''onClick'' of JFun h \<Rightarrow> Some h | _ \<Rightarrow> None))"

section \<open>Requests to the documentation service\<close>

record jsfile =
  fname :: string
  fbody :: string

record gen_opts =
  provider :: string
  model :: string
  style :: string
  verbosity :: string
  output_format :: "string option"

text \<open>The calls of \<open>lib/api\<close> that the panels issue, with their arguments.\<close>

datatype request =
    DocumentFile jsfile gen_opts
  | StartBatch "jsfile list" gen_opts
  | BatchStatus string

text \<open>
  An awaited call returns a value or throws. Of a thrown value \<open>e\<close> the handlers read
  \<open>e.message\<close> only: \<open>Throws (Some v)\<close> is a thrown value whose \<open>message\<close> reads as \<open>v\<close>
  (\<open>Undefined\<close> when it has none), \<open>Throws None\<close> is a thrown \<open>null\<close> or \<open>undefined\<close>, on which
  reading \<open>e.message\<close> throws a TypeError itself.
\<close>

datatype 'a outcome = Returns 'a | Throws "jsval option"

section \<open>FilePanel (web/src/components/panels/FilePanel.tsx)\<close>

text \<open>
  What \<open>api.documentFile\<close> resolves to: a Blob, an object, a falsy value (\<open>NoBody\<close>), or a
  truthy value that is not an object, on which \<open>'documentation' in resp\<close> throws a TypeError
  (\<open>NotObject m\<close>, with \<open>m\<close> the message of that TypeError).
\<close>

datatype file_response = Blob string | Json jsobj | NoBody | NotObject string

record file_panel =
  fp_loading :: bool
  fp_file :: "jsfile option"
  fp_result :: jsval
  fp_error :: jsval
  fp_requests :: "request list"
  fp_downloads :: "(string \<times> string) list"

text \<open>
  \<open>name.replace(/\.[^.]+$/, '')\<close>: a final dot followed by at least one character, none
  of them a dot, is removed together with what follows it.
\<close>

definition strip_ext :: "string \<Rightarrow> string" where
  "strip_ext s =
     (let suf = takeWhile (\<lambda>c. c \<noteq> CHR ''.'') (rev s)
      in if suf \<noteq> [] \<and> length suf < length s then take (length s - length suf - 1) s else s)"

text \<open>
  The \<open>catch\<close> block of \<open>handle\<close>: \<open>setError(e.message || 'File documentation failed')\<close>.
  When reading \<open>e.message\<close> throws, \<open>setError\<close> is not reached.
\<close>

definition handle_catch :: "jsval option \<Rightarrow> file_panel \<Rightarrow> file_panel" where
  "handle_catch m s =
     (case m of
        None \<Rightarrow> s
      | Some v \<Rightarrow> s\<lparr>fp_error := js_or v (JStr ''File documentation failed'')\<rparr>)"

text \<open>
  \<open>handle\<close>: the guard on line 14, the three state resets, the request, the branches on
  the response, the \<open>catch\<close> and the \<open>finally\<close>. The answer \<open>r\<close> of the service is
  consulted only after the request has been issued. \<open>fp_result\<close> and \<open>fp_error\<close> are the
  parent's \<open>result\<close> and \<open>error\<close> states, written through \<open>setResult\<close> and \<open>setError\<close>.
\<close>

definition handle :: "gen_opts \<Rightarrow> file_response outcome \<Rightarrow> file_panel \<Rightarrow> file_panel" where
  "handle opts r s =
     (case fp_file s of
        None \<Rightarrow> s
      | Some f \<Rightarrow>
          (let s1 = s\<lparr>fp_loading := True, fp_error := Null, fp_result := JStr ''''\<rparr>;
               s2 = s1\<lparr>fp_requests := fp_requests s1 @ [DocumentFile f (opts\<lparr>output_format := Some ''markdown''\<rparr>)]\<rparr>;
               s3 = (case r of
                       Returns (Blob b) \<Rightarrow>
                         s2\<lparr>fp_downloads := fp_downloads s2 @ [(b, strip_ext (fname f) @ ''_docs.md'')]\<rparr>
                     | Returns (Json obj) \<Rightarrow>
                         (if ''documentation'' \<in> dom obj
                          then s2\<lparr>fp_result := js_or (get_prop obj ''documentation'') (JStr '''')\<rparr>
                          else s2)
                     | Returns NoBody \<Rightarrow> s2
                     | Returns (NotObject m) \<Rightarrow> handle_catch (Some (JStr m)) s2
                     | Throws m \<Rightarrow> handle_catch m s2)
           in s3\<lparr>fp_loading := False\<rparr>))"

section \<open>BatchPanel (web/src/components/panels/BatchPanel.tsx)\<close>

text \<open>
  The fields of \<open>BatchStatus\<close> the panel reads, and the field of the answer of
  \<open>api.startBatch\<close> it reads (\<open>None\<close>: the field is missing).
\<close>

record batch_status =
  bs_status :: string
  bs_progress :: "int option"
  bs_message :: "string option"

record start_response =
  job_id :: "string option"

text \<open>
  An async function is suspended at its \<open>await\<close> and resumed when the answer arrives; in
  between, other handlers run. A suspended function is recorded with what its closure
  holds: \<open>start\<close> holds the value of \<open>polling\<close> of the render it was created in, the
  interval callback holds its interval handle \<open>t\<close> and \<open>resp.job_id\<close>.
\<close>

datatype continuation =
    AfterStartBatch "nat option"
  | AfterBatchStatus nat "string option"

text \<open>
  The panel's React state (\<open>jobId\<close>, \<open>status\<close>, \<open>polling\<close>, \<open>files\<close>, \<open>loading\<close>), and
  the part of the browser it acts on: the active intervals of \<open>window\<close> (handle to the
  job id its callback captured), the next handle \<open>setInterval\<close> returns, the requests
  issued so far, and the suspended async functions. Handles are positive and handed
  out in increasing order, as browsers do, so a handle is not used twice. The state
  components hold the values last set by a \<open>set...\<close> call; when React commits them to
  the screen is not part of the state, and nothing below reads \<open>loading\<close>.
\<close>

record batch_panel =
  jobId :: "string option"
  status :: "batch_status option"
  polling :: "nat option"
  files :: "jsfile list"
  loading :: bool
  timers :: "nat \<rightharpoonup> string option"
  next_handle :: nat
  requests :: "request list"
  inflight :: "continuation list"

definition init_panel :: batch_panel where
  "init_panel = \<lparr>jobId = None, status = None, polling = None, files = [], loading = False,
                  timers = Map.empty, next_handle = 1, requests = [], inflight = []\<rparr>"

text \<open>\<open>window.clearInterval(t)\<close>.\<close>

definition clearInterval :: "nat \<Rightarrow> batch_panel \<Rightarrow> batch_panel" where
  "clearInterval t s = s\<lparr>timers := (timers s)(t := None)\<rparr>"

text \<open>Truthiness of \<open>resp.job_id\<close> (a string or missing) and of \<open>polling\<close> (a number or null).\<close>

definition truthy_id :: "string option \<Rightarrow> bool" where
  "truthy_id j = (case j of None \<Rightarrow> False | Some x \<Rightarrow> x \<noteq> [])"

definition truthy_handle :: "nat option \<Rightarrow> bool" where
  "truthy_handle h = (case h of None \<Rightarrow> False | Some t \<Rightarrow> t \<noteq> 0)"

text \<open>\<open>start\<close>, lines 14 to 18: the guard, \<open>setLoading(true)\<close>, and the call it awaits.\<close>

definition start_begin :: "gen_opts \<Rightarrow> batch_panel \<Rightarrow> batch_panel" where
  "start_begin opts s =
     (if files s = [] then s
      else s\<lparr>loading := True,
             requests := requests s @ [StartBatch (files s) (opts\<lparr>output_format := None\<rparr>)],
             inflight := inflight s @ [AfterStartBatch (polling s)]\<rparr>)"

text \<open>
  \<open>start\<close>, lines 19 to 32, once \<open>api.startBatch\<close> has answered: \<open>setJobId\<close>, the old
  interval is cleared, a new one is set and stored in \<open>polling\<close>; \<open>finally\<close> resets
  \<open>loading\<close>, also when the call threw (nothing catches the error).
\<close>

definition start_resume :: "nat option \<Rightarrow> start_response outcome \<Rightarrow> batch_panel \<Rightarrow> batch_panel" where
  "start_resume captured r s =
     (case r of
        Throws m \<Rightarrow> s\<lparr>loading := False\<rparr>
      | Returns resp \<Rightarrow>
          (let s1 = s\<lparr>jobId := job_id resp\<rparr>;
               s2 = (if truthy_handle captured then clearInterval (the captured) s1 else s1);
               t = next_handle s2;
               s3 = s2\<lparr>timers := (timers s2)(t \<mapsto> job_id resp), next_handle := Suc t\<rparr>;
               s4 = s3\<lparr>polling := Some t\<rparr>
           in s4\<lparr>loading := False\<rparr>))"

text \<open>
  The interval callback, lines 21 to 23: interval \<open>t\<close> fires only while it is active; the
  callback returns at once when \<open>resp.job_id\<close> is falsy, and otherwise asks for the status.
\<close>

definition callback_begin :: "nat \<Rightarrow> batch_panel \<Rightarrow> batch_panel" where
  "callback_begin t s =
     (case timers s t of
        None \<Rightarrow> s
      | Some j \<Rightarrow>
          (if \<not> truthy_id j then s
           else s\<lparr>requests := requests s @ [BatchStatus (the j)],
                  inflight := inflight s @ [AfterBatchStatus t j]\<rparr>))"

text \<open>
  The interval callback, lines 24 to 27, once \<open>api.batchStatus\<close> has answered:
  \<open>setStatus(s)\<close>, and the interval is cleared when the status is \<open>completed\<close> or
  \<open>failed\<close>. When the call threw, the callback ends there.
\<close>

definition terminal :: "batch_status \<Rightarrow> bool" where
  "terminal b = (bs_status b = ''completed'' \<or> bs_status b = ''failed'')"

definition callback_resume :: "nat \<Rightarrow> batch_status outcome \<Rightarrow> batch_panel \<Rightarrow> batch_panel" where
  "callback_resume t r s =
     (case r of
        Throws m \<Rightarrow> s
      | Returns b \<Rightarrow>
          (let s1 = s\<lparr>status := Some b\<rparr>
           in if terminal b then clearInterval t s1 else s1))"

text \<open>
  What can happen to the mounted panel: the user picks files, a click on Start reaches
  its handler \<open>start\<close>, an interval fires, or the answer to the \<open>i\<close>-th suspended call
  arrives. Whether the Start button on screen lets a click through depends on the
  render React has committed at that moment; \<open>ClickStart\<close> stands for a click that gets
  through, and is possible at any state.
\<close>

datatype event =
    SelectFiles "jsfile list"
  | ClickStart
  | TimerFires nat
  | StartBatchAnswers nat "start_response outcome"
  | BatchStatusAnswers nat "batch_status outcome"

definition drop_nth :: "nat \<Rightarrow> 'a list \<Rightarrow> 'a list" where
  "drop_nth i xs = take i xs @ drop (Suc i) xs"

definition step :: "gen_opts \<Rightarrow> event \<Rightarrow> batch_panel \<Rightarrow> batch_panel" where
  "step opts e s =
     (case e of
        SelectFiles fs \<Rightarrow> s\<lparr>files := fs\<rparr>
      | ClickStart \<Rightarrow> start_begin opts s
      | TimerFires t \<Rightarrow> callback_begin t s
      | StartBatchAnswers i r \<Rightarrow>
          (if i < length (inflight s)
           then (case inflight s ! i of
                   AfterStartBatch captured \<Rightarrow>
                     start_resume captured r (s\<lparr>inflight := drop_nth i (inflight s)\<rparr>)
                 | AfterBatchStatus t j \<Rightarrow> s)
           else s)
      | BatchStatusAnswers i r \<Rightarrow>
          (if i < length (inflight s)
           then (case inflight s ! i of
                   AfterBatchStatus t j \<Rightarrow>
                     callback_resume t r (s\<lparr>inflight := drop_nth i (inflight s)\<rparr>)
                 | AfterStartBatch captured \<Rightarrow> s)
           else s))"

fun run :: "gen_opts \<Rightarrow> event list \<Rightarrow> batch_panel \<Rightarrow> batch_panel" where
  "run opts [] s = s"
| "run opts (e # es) s = run opts es (step opts e s)"

section \<open>The batch panel of App.tsx\<close>

text \<open>
  \<open>App.tsx\<close> (lines 228 to 268) holds a second \<open>BatchPanel\<close>. Its interval callback is,
  word for word, the one above. Its \<open>start\<close> reads the files from the input element
  (the \<open>files\<close> component stands for the element's selection, empty when the element
  or its selection is missing), has no \<open>loading\<close> state and no \<open>finally\<close>, and its button
  is a plain \<open>button\<close> that is never disabled.
\<close>

definition app_start_begin :: "gen_opts \<Rightarrow> batch_panel \<Rightarrow> batch_panel" where
  "app_start_begin opts s =
     (if files s = [] then s
      else s\<lparr>requests := requests s @ [StartBatch (files s) (opts\<lparr>output_format := None\<rparr>)],
             inflight := inflight s @ [AfterStartBatch (polling s)]\<rparr>)"

definition app_start_resume :: "nat option \<Rightarrow> start_response outcome \<Rightarrow> batch_panel \<Rightarrow> batch_panel" where
  "app_start_resume captured r s =
     (case r of
        Throws m \<Rightarrow> s
      | Returns resp \<Rightarrow>
          (let s1 = s\<lparr>jobId := job_id resp\<rparr>;
               s2 = (if truthy_handle captured then clearInterval (the captured) s1 else s1);
               t = next_handle s2;
               s3 = s2\<lparr>timers := (timers s2)(t \<mapsto> job_id resp), next_handle := Suc t\<rparr>
           in s3\<lparr>polling := Some t\<rparr>))"

definition app_step :: "gen_opts \<Rightarrow> event \<Rightarrow> batch_panel \<Rightarrow> batch_panel" where
  "app_step opts e s =
     (case e of
        SelectFiles fs \<Rightarrow> s\<lparr>files := fs\<rparr>
      | ClickStart \<Rightarrow> app_start_begin opts s
      | TimerFires t \<Rightarrow> callback_begin t s
      | StartBatchAnswers i r \<Rightarrow>
          (if i < length (inflight s)
           then (case inflight s ! i of
                   AfterStartBatch captured \<Rightarrow>
                     app_start_resume captured r (s\<lparr>inflight := drop_nth i (inflight s)\<rparr>)
                 | AfterBatchStatus t j \<Rightarrow> s)
           else s)
      | BatchStatusAnswers i r \<Rightarrow>
          (if i < length (inflight s)
           then (case inflight s ! i of
                   AfterBatchStatus t j \<Rightarrow>
                     callback_resume t r (s\<lparr>inflight := drop_nth i (inflight s)\<rparr>)
                 | AfterStartBatch captured \<Rightarrow> s)
           else s))"

fun app_run :: "gen_opts \<Rightarrow> event list \<Rightarrow> batch_panel \<Rightarrow> batch_panel" where
  "app_run opts [] s = s"
| "app_run opts (e # es) s = app_run opts es (app_step opts e s)"

text \<open>Every \<open>startBatch\<close> request of a list of requests carries at least one file.\<close>

definition nonempty_batches :: "request list \<Rightarrow> bool" where
  "nonempty_batches rs = list_all (\<lambda>r. case r of StartBatch fs opts \<Rightarrow> fs \<noteq> [] | _ \<Rightarrow> True) rs"

text \<open>
  Interval \<open>t\<close> has been handed out by \<open>setInterval\<close> and is no longer active.
\<close>

definition cleared :: "nat \<Rightarrow> batch_panel \<Rightarrow> bool" where
  "cleared t s = (timers s t = None \<and> t < next_handle s)"

text \<open>
  A session with the panel: one file is picked, Start is clicked, the service answers
  with job \<open>j1\<close>, the interval fires once (\<open>demo_polling\<close>), and the service reports
  \<open>completed\<close> (\<open>demo_finished\<close>).
\<close>

definition demo_opts :: gen_opts where
  "demo_opts = \<lparr>provider = ''deepseek'', model = ''deepseek-r1'', style = ''google'',
                 verbosity = ''medium'', output_format = None\<rparr>"

definition demo_file :: jsfile where
  "demo_file = \<lparr>fname = ''a.py'', fbody = ''x = 1''\<rparr>"

definition demo_completed :: batch_status where
  "demo_completed = \<lparr>bs_status = ''completed'', bs_progress = Some 100, bs_message = None\<rparr>"

definition demo_failed :: batch_status where
  "demo_failed = \<lparr>bs_status = ''failed'', bs_progress = Some 40, bs_message = Some ''boom''\<rparr>"

definition demo_running :: batch_status where
  "demo_running = \<lparr>bs_status = ''running'', bs_progress = Some 40, bs_message = None\<rparr>"

definition demo_polling :: batch_panel where
  "demo_polling = run demo_opts
     [SelectFiles [demo_file], ClickStart,
      StartBatchAnswers 0 (Returns \<lparr>job_id = Some ''j1''\<rparr>), TimerFires 1] init_panel"

definition demo_finished :: batch_panel where
  "demo_finished = step demo_opts (BatchStatusAnswers 0 (Returns demo_completed)) demo_polling"

definition demo_idle :: file_panel where
  "demo_idle = \<lparr>fp_loading = False, fp_file = None, fp_result = JStr ''old'', fp_error = Null,
                 fp_requests = [], fp_downloads = []\<rparr>"

section \<open>The documentation pipeline behind the API\<close>

text \<open>
  The service that answers \<open>startBatch\<close> and \<open>batchStatus\<close> is not among the sources;
  the panels above are its callers. The definitions of this section follow the
  specification's description of two of its components, the Unit Documenter with the
  Provider Adapter's failure kinds and the File Assembler, over the specification's
  data model.
\<close>

subsection \<open>Data model\<close>

text \<open>
  Modelled from the spec: the source span of a unit (the Source Unit Extractor's unit
  descriptor is missing): unit kind and start and end offsets into the file's text.
\<close>

datatype unit_kind = FunctionUnit | ClassUnit | ModuleUnit

record span =
  sp_kind :: unit_kind
  sp_start :: nat
  sp_end :: nat

text \<open>
  Modelled from the spec: the Provider Adapter's failure kinds (the adapter is
  missing): AuthFailure, RateLimited, Timeout, InvalidResponse.
\<close>

datatype error_kind = AuthFailure | RateLimited | Timeout | InvalidResponse

text \<open>
  Modelled from the spec: a DocumentedUnit (the pipeline's result type is missing):
  source span, generated documentation text, and generation status, one of ok,
  skipped, failed with a reason.
\<close>

datatype gen_status = Ok | Skipped | Failed error_kind

record documented_unit =
  du_span :: span
  du_doc :: string
  du_status :: gen_status

subsection \<open>Provider Adapter and Unit Documenter\<close>









subsection \<open>File Assembler\<close>

text \<open>
  Modelled from the spec: the File Assembler's inline format (the assembler is
  missing). The output is built from pieces: text of the source, and documentation.
  The units come in source order; for each unit the source up to the start of its span
  is copied, then, if its generation succeeded, its documentation is inserted,
  immediately before the span; a failed or skipped unit gets no documentation. After
  the last unit the rest of the source is copied. \<open>cur\<close> is the offset up to which the
  source has been copied.
\<close>

datatype segment = Src string | Doc string

fun inline_segments :: "string \<Rightarrow> nat \<Rightarrow> documented_unit list \<Rightarrow> segment list" where
  "inline_segments content cur [] = [Src (drop cur content)]"
| "inline_segments content cur (u # us) =
     Src (take (sp_start (du_span u) - cur) (drop cur content))
     # (if du_status u = Ok then [Doc (du_doc u)] else [])
     @ inline_segments content (max cur (sp_start (du_span u))) us"

text \<open>The output text is the pieces one after the other.\<close>

fun seg_text :: "segment \<Rightarrow> string" where
  "seg_text (Src s) = s"
| "seg_text (Doc d) = d"

definition render :: "segment list \<Rightarrow> string" where
  "render segs = concat (map seg_text segs)"

text \<open>The source bytes of an output, and its documentation pieces.\<close>

fun source_of :: "segment list \<Rightarrow> string" where
  "source_of [] = []"
| "source_of (Src s # segs) = s @ source_of segs"
| "source_of (Doc d # segs) = source_of segs"

fun docs_of :: "segment list \<Rightarrow> string list" where
  "docs_of [] = []"
| "docs_of (Src s # segs) = docs_of segs"
| "docs_of (Doc d # segs) = d # docs_of segs"

text \<open>
  Modelled from the spec: the file-level error summary (missing): the failed units,
  each by its index among the file's units, with the reason.
\<close>

fun error_summary :: "nat \<Rightarrow> documented_unit list \<Rightarrow> (nat \<times> error_kind) list" where
  "error_summary i [] = []"
| "error_summary i (u # us) =
     (case du_status u of Failed e \<Rightarrow> [(i, e)] | _ \<Rightarrow> []) @ error_summary (Suc i) us"

text \<open>
  Modelled from the spec: the artifact the File Assembler produces for one file in the
  inline format (missing): the output text, here with the pieces it is made of, and
  the file-level error summary.
\<close>

record artifact =
  art_segments :: "segment list"
  art_text :: string
  art_errors :: "(nat \<times> error_kind) list"

definition assemble_inline :: "string \<Rightarrow> documented_unit list \<Rightarrow> artifact" where
  "assemble_inline content units =
     (let segs = inline_segments content 0 units
      in \<lparr>art_segments = segs, art_text = render segs, art_errors = error_summary 0 units\<rparr>)"

text \<open>Sample data: a file with two functions, the second of which failed with RateLimited.\<close>

definition demo_source :: string where
  "demo_source = ''def f(): pass; def g(): pass''"

definition demo_units :: "documented_unit list" where
  "demo_units =
     [\<lparr>du_span = \<lparr>sp_kind = FunctionUnit, sp_start = 0, sp_end = 13\<rparr>, du_doc = ''# f. '', du_status = Ok\<rparr>,
      \<lparr>du_span = \<lparr>sp_kind = FunctionUnit, sp_start = 15, sp_end = 28\<rparr>, du_doc = [], du_status = Failed RateLimited\<rparr>]"






section \<open>Properties of the web client\<close>

subsection \<open>Button\<close>

lemma Button_disabled_attr:
  "attrs (Button p ch) ''disabled'' =
     Some (js_or (dflt (JBool False) (get_prop p ''loading'')) (get_prop p ''disabled''))"
  by (simp add: Button_def Let_def omit_def get_prop_def map_add_def)

lemma Button_onClick_attr: "attrs (Button p ch) ''onClick'' = p ''onClick''"
  by (simp add: Button_def Let_def omit_def map_add_def split: option.splits)




text \<open>Without \<open>loading\<close> and \<open>disabled\<close> the same button passes the click on.\<close>

lemma Button_enabled_click:
  "click (Button [''onClick'' \<mapsto> JFun 0, ''loading'' \<mapsto> JBool False] [Text ''Go'']) = Some 0"
  by (simp add: click_def Button_disabled_attr Button_onClick_attr get_prop_def js_or_def dflt_def)

subsection \<open>Requests issued by the panels\<close>

lemma handle_requests:
  "fp_requests (handle opts r s) =
     fp_requests s @ (case fp_file s of None \<Rightarrow> []
                      | Some f \<Rightarrow> [DocumentFile f (opts\<lparr>output_format := Some ''markdown''\<rparr>)])"
  by (simp add: handle_def handle_catch_def Let_def
      split: option.splits outcome.splits file_response.splits)

lemma start_begin_requests:
  "requests (start_begin opts s) =
     requests s @ (if files s = [] then [] else [StartBatch (files s) (opts\<lparr>output_format := None\<rparr>)])"
  by (simp add: start_begin_def)

lemma start_resume_requests: "requests (start_resume c r s) = requests s"
  by (simp add: start_resume_def Let_def clearInterval_def split: outcome.splits)

lemma callback_begin_requests:
  "requests (callback_begin t s) =
     requests s @ (case timers s t of None \<Rightarrow> []
                   | Some j \<Rightarrow> if truthy_id j then [BatchStatus (the j)] else [])"
  by (simp add: callback_begin_def split: option.splits)

lemma callback_resume_requests: "requests (callback_resume t r s) = requests s"
  by (simp add: callback_resume_def Let_def clearInterval_def split: outcome.splits)

lemma nonempty_batches_append:
  "nonempty_batches (xs @ ys) = (nonempty_batches xs \<and> nonempty_batches ys)"
  by (simp add: nonempty_batches_def)

lemma step_nonempty_batches:
  "nonempty_batches (requests s) \<Longrightarrow> nonempty_batches (requests (step opts e s))"
  by (cases e)
     (auto simp: step_def start_begin_requests start_resume_requests callback_begin_requests
        callback_resume_requests nonempty_batches_append nonempty_batches_def
        split: option.splits continuation.splits)

lemma run_nonempty_batches:
  "nonempty_batches (requests s) \<Longrightarrow> nonempty_batches (requests (run opts es s))"
  by (induction es arbitrary: s) (simp_all add: step_nonempty_batches)

lemma run_append: "run opts (es @ fs) s = run opts fs (run opts es s)"
  by (induction es arbitrary: s) simp_all

lemma app_start_begin_requests:
  "requests (app_start_begin opts s) =
     requests s @ (if files s = [] then [] else [StartBatch (files s) (opts\<lparr>output_format := None\<rparr>)])"
  by (simp add: app_start_begin_def)

lemma app_start_resume_requests: "requests (app_start_resume c r s) = requests s"
  by (simp add: app_start_resume_def Let_def clearInterval_def split: outcome.splits)

lemma app_step_nonempty_batches:
  "nonempty_batches (requests s) \<Longrightarrow> nonempty_batches (requests (app_step opts e s))"
  by (cases e)
     (auto simp: app_step_def app_start_begin_requests app_start_resume_requests
        callback_begin_requests callback_resume_requests nonempty_batches_append
        nonempty_batches_def split: option.splits continuation.splits)

lemma app_run_nonempty_batches:
  "nonempty_batches (requests s) \<Longrightarrow> nonempty_batches (requests (app_run opts es s))"
  by (induction es arbitrary: s) (simp_all add: app_step_nonempty_batches)

lemma app_run_append: "app_run opts (es @ fs) s = app_run opts fs (app_run opts es s)"
  by (induction es arbitrary: s) simp_all

lemmas demo_simps = demo_polling_def demo_finished_def demo_opts_def demo_file_def
  demo_completed_def demo_failed_def demo_running_def init_panel_def step_def start_begin_def
  start_resume_def callback_begin_def callback_resume_def clearInterval_def truthy_id_def
  truthy_handle_def terminal_def drop_nth_def Let_def

text \<open>
  Claim C10. The client issues no request for an empty selection: \<open>FilePanel.handle\<close>
  changes nothing, so calls nothing, when no file is selected; \<open>BatchPanel.start\<close> changes
  nothing, so calls nothing, when the file list is empty, and so does the \<open>start\<close> of
  the panel in \<open>App.tsx\<close>; and whatever the user and the service do, every \<open>startBatch\<close>
  request either batch panel has issued carries at least one file, so the service
  never sees an empty batch from this client.
\<close>

theorem no_request_without_selection:
  "(fp_file p = None \<longrightarrow> handle opts r p = p)
   \<and> (files s = [] \<longrightarrow> start_begin opts s = s \<and> app_start_begin opts s = s)
   \<and> nonempty_batches (requests (run opts es init_panel))
   \<and> nonempty_batches (requests (app_run opts es init_panel))"
proof (intro conjI impI)
  show "handle opts r p = p" if "fp_file p = None"
    using that by (simp add: handle_def)
  show "start_begin opts s = s" if "files s = []"
    using that by (simp add: start_begin_def)
  show "app_start_begin opts s = s" if "files s = []"
    using that by (simp add: app_start_begin_def)
  show "nonempty_batches (requests (run opts es init_panel))"
    by (rule run_nonempty_batches) (simp add: init_panel_def nonempty_batches_def)
  show "nonempty_batches (requests (app_run opts es init_panel))"
    by (rule app_run_nonempty_batches) (simp add: init_panel_def nonempty_batches_def)
qed

theorem no_request_without_selection_witness:
  "fp_file demo_idle = None
   \<and> fp_requests (handle demo_opts (Returns (Blob ''x'')) demo_idle) = []
   \<and> files init_panel = []
   \<and> requests (start_begin demo_opts init_panel) = []
   \<and> requests (run demo_opts [ClickStart, SelectFiles [demo_file], ClickStart] init_panel)
       = [StartBatch [demo_file] demo_opts]
   \<and> nonempty_batches (requests (run demo_opts [ClickStart, SelectFiles [demo_file], ClickStart] init_panel))"
proof -
  have a: "fp_file demo_idle = None" by (simp add: demo_idle_def)
  have b: "files init_panel = []" by (simp add: init_panel_def)
  have c: "requests (run demo_opts [ClickStart, SelectFiles [demo_file], ClickStart] init_panel)
             = [StartBatch [demo_file] demo_opts]"
    by (simp add: demo_simps)
  from no_request_without_selection
         [of demo_idle demo_opts "Returns (Blob ''x'')" init_panel
             "[ClickStart, SelectFiles [demo_file], ClickStart]"]
  have "handle demo_opts (Returns (Blob ''x'')) demo_idle = demo_idle"
    and "start_begin demo_opts init_panel = init_panel"
    and "nonempty_batches (requests (run demo_opts [ClickStart, SelectFiles [demo_file], ClickStart] init_panel))"
    using a b by simp_all
  with a b c show ?thesis by (simp add: demo_idle_def init_panel_def)
qed

subsection \<open>The polling loop\<close>

lemma callback_resume_timers:
  "timers (callback_resume t (Returns b) s) = (if terminal b then (timers s)(t := None) else timers s)"
  by (simp add: callback_resume_def Let_def clearInterval_def)

lemma callback_resume_throws: "callback_resume t (Throws m) s = s"
  by (simp add: callback_resume_def)

lemma callback_resume_inflight: "inflight (callback_resume t r s) = inflight s"
  by (simp add: callback_resume_def Let_def clearInterval_def split: outcome.splits)

lemma callback_resume_next_handle: "next_handle (callback_resume t r s) = next_handle s"
  by (simp add: callback_resume_def Let_def clearInterval_def split: outcome.splits)

lemma callback_begin_inactive: "timers s t = None \<Longrightarrow> callback_begin t s = s"
  by (simp add: callback_begin_def)

lemma callback_begin_active:
  "timers s t = Some (Some j) \<Longrightarrow> j \<noteq> [] \<Longrightarrow>
   requests (callback_begin t s) = requests s @ [BatchStatus j]"
  by (simp add: callback_begin_def truthy_id_def)

text \<open>An interval that has been cleared stays cleared: \<open>setInterval\<close> hands out a new handle.\<close>

lemma start_resume_cleared: "cleared t s \<Longrightarrow> cleared t (start_resume c r s)"
  by (auto simp: cleared_def start_resume_def Let_def clearInterval_def split: outcome.splits)

lemma callback_resume_cleared: "cleared t s \<Longrightarrow> cleared t (callback_resume u r s)"
  by (auto simp: cleared_def callback_resume_def Let_def clearInterval_def split: outcome.splits)

lemma step_cleared: "cleared t s \<Longrightarrow> cleared t (step opts e s)"
proof (cases e)
  case (SelectFiles fs)
  assume "cleared t s"
  with SelectFiles show ?thesis by (simp add: step_def cleared_def)
next
  case ClickStart
  assume "cleared t s"
  with ClickStart show ?thesis
    by (simp add: step_def cleared_def start_begin_def)
next
  case (TimerFires u)
  assume "cleared t s"
  with TimerFires show ?thesis
    by (simp add: step_def cleared_def callback_begin_def split: option.splits)
next
  case (StartBatchAnswers i r)
  assume c: "cleared t s"
  then have "cleared t (s\<lparr>inflight := drop_nth i (inflight s)\<rparr>)" by (simp add: cleared_def)
  then have "cleared t (start_resume c' r (s\<lparr>inflight := drop_nth i (inflight s)\<rparr>))" for c'
    by (rule start_resume_cleared)
  with c StartBatchAnswers show ?thesis
    by (simp add: step_def split: continuation.splits)
next
  case (BatchStatusAnswers i r)
  assume c: "cleared t s"
  then have "cleared t (s\<lparr>inflight := drop_nth i (inflight s)\<rparr>)" by (simp add: cleared_def)
  then have "cleared t (callback_resume u r (s\<lparr>inflight := drop_nth i (inflight s)\<rparr>))" for u
    by (rule callback_resume_cleared)
  with c BatchStatusAnswers show ?thesis
    by (simp add: step_def split: continuation.splits)
qed

lemma run_cleared: "cleared t s \<Longrightarrow> cleared t (run opts es s)"
  by (induction es arbitrary: s) (simp_all add: step_cleared)

lemma app_start_resume_cleared: "cleared t s \<Longrightarrow> cleared t (app_start_resume c r s)"
  by (auto simp: cleared_def app_start_resume_def Let_def clearInterval_def split: outcome.splits)

lemma app_step_cleared: "cleared t s \<Longrightarrow> cleared t (app_step opts e s)"
proof (cases e)
  case (SelectFiles fs)
  assume "cleared t s"
  with SelectFiles show ?thesis by (simp add: app_step_def cleared_def)
next
  case ClickStart
  assume "cleared t s"
  with ClickStart show ?thesis by (simp add: app_step_def cleared_def app_start_begin_def)
next
  case (TimerFires u)
  assume "cleared t s"
  with TimerFires show ?thesis
    by (simp add: app_step_def cleared_def callback_begin_def split: option.splits)
next
  case (StartBatchAnswers i r)
  assume c: "cleared t s"
  then have "cleared t (s\<lparr>inflight := drop_nth i (inflight s)\<rparr>)" by (simp add: cleared_def)
  then have "cleared t (app_start_resume c' r (s\<lparr>inflight := drop_nth i (inflight s)\<rparr>))" for c'
    by (rule app_start_resume_cleared)
  with c StartBatchAnswers show ?thesis
    by (simp add: app_step_def split: continuation.splits)
next
  case (BatchStatusAnswers i r)
  assume c: "cleared t s"
  then have "cleared t (s\<lparr>inflight := drop_nth i (inflight s)\<rparr>)" by (simp add: cleared_def)
  then have "cleared t (callback_resume u r (s\<lparr>inflight := drop_nth i (inflight s)\<rparr>))" for u
    by (rule callback_resume_cleared)
  with c BatchStatusAnswers show ?thesis
    by (simp add: app_step_def split: continuation.splits)
qed

lemma app_run_cleared: "cleared t s \<Longrightarrow> cleared t (app_run opts es s)"
  by (induction es arbitrary: s) (simp_all add: app_step_cleared)

lemma callback_begin_no_job:
  "timers s t = None \<or> timers s t = Some None \<or> timers s t = Some (Some []) \<Longrightarrow>
   callback_begin t s = s"
  by (auto simp: callback_begin_def truthy_id_def)

lemma callback_resume_status: "status (callback_resume t (Returns b) s) = Some b"
  by (simp add: callback_resume_def Let_def clearInterval_def)

text \<open>
  Claim C8, as the code has it. An active interval asks for the job's status each time
  it fires, provided the job id that \<open>startBatch\<close> returned is present and not empty; with
  a missing or empty job id, and when the interval is not active, a firing does
  nothing. When the answer to a status request of interval \<open>t\<close> arrives, the status is
  stored (\<open>setStatus\<close>), and the interval is cleared exactly when the reported status is
  \<open>completed\<close> or \<open>failed\<close>; a request that threw leaves everything as it was. Handling
  the answer issues no request and suspends nothing: no artifact is fetched. Once
  cleared, the interval stays cleared whatever happens next, and its firing issues no
  request, in the panel of \<open>BatchPanel.tsx\<close> and in the one of \<open>App.tsx\<close> alike.
\<close>

theorem polling_stops_at_terminal_status:
  assumes "t < next_handle s"
  shows "(timers s t = Some (Some j) \<and> j \<noteq> [] \<longrightarrow>
            requests (callback_begin t s) = requests s @ [BatchStatus j])
         \<and> (timers s t = None \<or> timers s t = Some None \<or> timers s t = Some (Some []) \<longrightarrow>
              callback_begin t s = s)
         \<and> status (callback_resume t (Returns b) s) = Some b
         \<and> timers (callback_resume t (Returns b) s) =
             (if bs_status b = ''completed'' \<or> bs_status b = ''failed''
              then (timers s)(t := None) else timers s)
         \<and> callback_resume t (Throws m) s = s
         \<and> requests (callback_resume t r s) = requests s
         \<and> inflight (callback_resume t r s) = inflight s
         \<and> (bs_status b = ''completed'' \<or> bs_status b = ''failed'' \<longrightarrow>
              cleared t (run opts es (callback_resume t (Returns b) s))
              \<and> requests (run opts (es @ [TimerFires t]) (callback_resume t (Returns b) s))
                  = requests (run opts es (callback_resume t (Returns b) s))
              \<and> cleared t (app_run opts es (callback_resume t (Returns b) s))
              \<and> requests (app_run opts (es @ [TimerFires t]) (callback_resume t (Returns b) s))
                  = requests (app_run opts es (callback_resume t (Returns b) s)))"
proof (intro conjI impI)
  show "requests (callback_begin t s) = requests s @ [BatchStatus j]"
    if "timers s t = Some (Some j) \<and> j \<noteq> []"
    using that by (simp add: callback_begin_active)
  show "callback_begin t s = s"
    if "timers s t = None \<or> timers s t = Some None \<or> timers s t = Some (Some [])"
    using that by (rule callback_begin_no_job)
  show "status (callback_resume t (Returns b) s) = Some b" by (rule callback_resume_status)
  show "timers (callback_resume t (Returns b) s) =
             (if bs_status b = ''completed'' \<or> bs_status b = ''failed''
              then (timers s)(t := None) else timers s)"
    by (simp add: callback_resume_timers terminal_def)
  show "callback_resume t (Throws m) s = s" by (rule callback_resume_throws)
  show "requests (callback_resume t r s) = requests s" by (rule callback_resume_requests)
  show "inflight (callback_resume t r s) = inflight s" by (rule callback_resume_inflight)
next
  assume "bs_status b = ''completed'' \<or> bs_status b = ''failed''"
  then have tb: "terminal b" by (simp add: terminal_def)
  let ?s' = "callback_resume t (Returns b) s"
  have "cleared t ?s'"
    using assms tb by (simp add: cleared_def callback_resume_timers callback_resume_next_handle)
  then show c: "cleared t (run opts es ?s')" by (rule run_cleared)
  then have "callback_begin t (run opts es ?s') = run opts es ?s'"
    by (simp add: cleared_def callback_begin_inactive)
  then show "requests (run opts (es @ [TimerFires t]) ?s') = requests (run opts es ?s')"
    by (simp add: run_append step_def)
next
  assume "bs_status b = ''completed'' \<or> bs_status b = ''failed''"
  then have tb: "terminal b" by (simp add: terminal_def)
  let ?s' = "callback_resume t (Returns b) s"
  have "cleared t ?s'"
    using assms tb by (simp add: cleared_def callback_resume_timers callback_resume_next_handle)
  then show c: "cleared t (app_run opts es ?s')" by (rule app_run_cleared)
  then have "callback_begin t (app_run opts es ?s') = app_run opts es ?s'"
    by (simp add: cleared_def callback_begin_inactive)
  then show "requests (app_run opts (es @ [TimerFires t]) ?s') = requests (app_run opts es ?s')"
    by (simp add: app_run_append app_step_def)
qed

theorem polling_stops_at_terminal_status_witness:
  "1 < next_handle demo_polling
   \<and> timers demo_polling 1 = Some (Some ''j1'')
   \<and> requests (callback_begin 1 demo_polling) = requests demo_polling @ [BatchStatus ''j1'']
   \<and> status (callback_resume 1 (Returns demo_completed) demo_polling) = Some demo_completed
   \<and> timers (callback_resume 1 (Returns demo_completed) demo_polling) 1 = None
   \<and> status (callback_resume 1 (Returns demo_failed) demo_polling) = Some demo_failed
   \<and> timers (callback_resume 1 (Returns demo_failed) demo_polling) 1 = None
   \<and> status (callback_resume 1 (Returns demo_running) demo_polling) = Some demo_running
   \<and> timers (callback_resume 1 (Returns demo_running) demo_polling) 1 = Some (Some ''j1'')
   \<and> requests (callback_resume 1 (Returns demo_failed) demo_polling) = requests demo_polling
   \<and> requests (run demo_opts ([ClickStart] @ [TimerFires 1])
                 (callback_resume 1 (Returns demo_failed) demo_polling))
       = requests (run demo_opts [ClickStart] (callback_resume 1 (Returns demo_failed) demo_polling))"
proof -
  have h: "1 < next_handle demo_polling" by (simp add: demo_simps)
  have a: "timers demo_polling 1 = Some (Some ''j1'')" by (simp add: demo_simps)
  have c: "bs_status demo_completed = ''completed''" by (simp add: demo_completed_def)
  have f: "bs_status demo_failed = ''failed''" by (simp add: demo_failed_def)
  have n: "\<not> (bs_status demo_running = ''completed'' \<or> bs_status demo_running = ''failed'')"
    by (simp add: demo_running_def)
  from polling_stops_at_terminal_status
         [OF h, of "''j1''" demo_completed None "Returns demo_completed" demo_opts "[ClickStart]"]
       polling_stops_at_terminal_status
         [OF h, of "''j1''" demo_failed None "Returns demo_failed" demo_opts "[ClickStart]"]
       polling_stops_at_terminal_status
         [OF h, of "''j1''" demo_running None "Returns demo_running" demo_opts "[ClickStart]"]
  show ?thesis using h a c f n by simp
qed

text \<open>
  Claim C8 as stated fails at its last part. In the session \<open>demo_polling\<close> a status
  request for job \<open>j1\<close> is under way; when it is answered with \<open>completed\<close> the status is
  stored and the interval is cleared, and then nothing is left to run: the requests
  issued are still the \<open>startBatch\<close> and the \<open>batchStatus\<close>, no call is suspended and
  no interval is active. No artifact has been or will be fetched.
\<close>

theorem artifacts_fetch_counterexample:
  "requests demo_polling = [StartBatch [demo_file] demo_opts, BatchStatus ''j1'']
   \<and> inflight demo_polling = [AfterBatchStatus 1 (Some ''j1'')]
   \<and> bs_status demo_completed = ''completed''
   \<and> status demo_finished = Some demo_completed
   \<and> requests demo_finished = requests demo_polling
   \<and> inflight demo_finished = []
   \<and> timers demo_finished = Map.empty
   \<and> step demo_opts (TimerFires 1) demo_finished = demo_finished"
  by (simp add: demo_simps)

section \<open>Properties of the pipeline components\<close>

subsection \<open>Unit Documenter: bounded retries\<close>




























subsection \<open>File Assembler: inline format\<close>


lemma source_of_append: "source_of (xs @ ys) = source_of xs @ source_of ys"
  by (induction xs rule: source_of.induct) simp_all

lemma docs_of_append: "docs_of (xs @ ys) = docs_of xs @ docs_of ys"
  by (induction xs rule: docs_of.induct) simp_all

lemma slice_join:
  "take (s - cur) (drop cur (c::'a list)) @ drop (max cur s) c = drop cur c"
proof (cases "s \<le> cur")
  case True
  then show ?thesis by (simp add: max_absorb1)
next
  case False
  have "take (s - cur) (drop cur c) @ drop (s - cur) (drop cur c) = drop cur c"
    by (rule append_take_drop_id)
  moreover from False have "drop (s - cur) (drop cur c) = drop (max cur s) c"
    by (simp add: max_absorb2)
  ultimately show ?thesis by (simp only:)
qed

lemma source_of_inline: "source_of (inline_segments content cur units) = drop cur content"
proof (induction units arbitrary: cur)
  case Nil
  then show ?case by simp
next
  case (Cons u us)
  then show ?case by (simp add: source_of_append slice_join)
qed

lemma docs_of_inline:
  "docs_of (inline_segments content cur units) = map du_doc (filter (\<lambda>u. du_status u = Ok) units)"
  by (induction units arbitrary: cur) (simp_all add: docs_of_append)

lemma render_Cons: "render (x # xs) = seg_text x @ render xs"
  by (simp add: render_def)

lemma render_append: "render (xs @ ys) = render xs @ render ys"
  by (simp add: render_def)

lemma subseq_source_render: "subseq (source_of segs) (render segs)"
proof (induction segs rule: source_of.induct)
  case 1
  then show ?case by (simp add: render_def)
next
  case (2 s segs)
  then show ?case by (simp add: render_Cons list_emb_append_mono)
next
  case (3 d segs)
  then show ?case by (simp add: render_Cons subseq_drop_many)
qed

lemma length_render:
  "length (render segs) = length (source_of segs) + sum_list (map length (docs_of segs))"
  by (induction segs rule: source_of.induct) (simp_all add: render_Cons render_def)

lemma error_summary_iff:
  "(n, e) \<in> set (error_summary i units) \<longleftrightarrow>
     (\<exists>j<length units. n = i + j \<and> du_status (units ! j) = Failed e)"
proof (induction units arbitrary: i)
  case Nil
  then show ?case by simp
next
  case (Cons u us)
  have "(\<exists>j<length (u # us). n = i + j \<and> du_status ((u # us) ! j) = Failed e)
        \<longleftrightarrow> (n = i \<and> du_status u = Failed e) \<or> (\<exists>j<length us. n = Suc i + j \<and> du_status (us ! j) = Failed e)"
    (is "?L \<longleftrightarrow> ?A \<or> ?B")
  proof
    assume ?L
    then obtain j where j: "j < length (u # us)" "n = i + j" "du_status ((u # us) ! j) = Failed e" by blast
    show "?A \<or> ?B"
    proof (cases j)
      case 0
      with j show ?thesis by simp
    next
      case (Suc k)
      with j have "k < length us" "n = Suc i + k" "du_status (us ! k) = Failed e" by simp_all
      then show ?thesis by blast
    qed
  next
    assume "?A \<or> ?B"
    then show ?L
    proof
      assume ?A
      then have "0 < length (u # us) \<and> n = i + 0 \<and> du_status ((u # us) ! 0) = Failed e" by simp
      then show ?L by blast
    next
      assume ?B
      then obtain k where "k < length us" "n = Suc i + k" "du_status (us ! k) = Failed e" by blast
      then have "Suc k < length (u # us) \<and> n = i + Suc k \<and> du_status ((u # us) ! Suc k) = Failed e" by simp
      then show ?L by blast
    qed
  qed
  moreover have "(n, e) \<in> set (error_summary i (u # us)) \<longleftrightarrow>
      (n = i \<and> du_status u = Failed e) \<or> (n, e) \<in> set (error_summary (Suc i) us)"
    by (auto split: gen_status.splits)
  ultimately show ?case using Cons.IH [of "Suc i"] by simp
qed

lemma take_take_drop:
  assumes "cur \<le> m" "m \<le> s"
  shows "take (m - cur) (drop cur (c::'a list)) @ take (s - m) (drop m c) = take (s - cur) (drop cur c)"
proof -
  have "s - cur = (m - cur) + (s - m)" using assms by simp
  then have "take (s - cur) (drop cur c) = take (m - cur) (drop cur c) @ take (s - m) (drop (m - cur) (drop cur c))"
    by (simp only: take_add)
  moreover have "drop (m - cur) (drop cur c) = drop m c" using assms by simp
  ultimately show ?thesis by simp
qed

lemma doc_position:
  assumes "\<forall>v\<in>set us1. sp_start (du_span v) \<le> sp_start (du_span u)"
    and "cur \<le> sp_start (du_span u)" and "du_status u = Ok"
  shows "\<exists>A B. inline_segments content cur (us1 @ u # us2) = A @ Doc (du_doc u) # B
          \<and> source_of A = take (sp_start (du_span u) - cur) (drop cur content)
          \<and> source_of B = drop (sp_start (du_span u)) content"
  using assms
proof (induction us1 arbitrary: cur)
  case Nil
  let ?A = "[Src (take (sp_start (du_span u) - cur) (drop cur content))]"
  let ?B = "inline_segments content (max cur (sp_start (du_span u))) us2"
  from Nil have "inline_segments content cur ([] @ u # us2) = ?A @ Doc (du_doc u) # ?B" by simp
  moreover have "source_of ?A = take (sp_start (du_span u) - cur) (drop cur content)" by simp
  moreover from Nil have "source_of ?B = drop (sp_start (du_span u)) content"
    by (simp add: source_of_inline max_absorb2)
  ultimately show ?case by blast
next
  case (Cons v us1)
  let ?m = "max cur (sp_start (du_span v))"
  let ?s = "sp_start (du_span u)"
  from Cons.prems have m: "cur \<le> ?m" "?m \<le> ?s" by simp_all
  from Cons.prems have "\<forall>w\<in>set us1. sp_start (du_span w) \<le> ?s" by simp
  from Cons.IH [OF this m(2) Cons.prems(3)]
  obtain A B where AB: "inline_segments content ?m (us1 @ u # us2) = A @ Doc (du_doc u) # B"
    "source_of A = take (?s - ?m) (drop ?m content)" "source_of B = drop ?s content"
    by blast
  let ?pre = "Src (take (sp_start (du_span v) - cur) (drop cur content))
              # (if du_status v = Ok then [Doc (du_doc v)] else [])"
  have e: "inline_segments content cur ((v # us1) @ u # us2) = (?pre @ A) @ Doc (du_doc u) # B"
    using AB(1) by simp
  have "take (sp_start (du_span v) - cur) (drop cur content) = take (?m - cur) (drop cur content)"
    by (cases "sp_start (du_span v) \<le> cur") (simp_all add: max_def)
  then have "source_of (?pre @ A) = take (?m - cur) (drop cur content) @ take (?s - ?m) (drop ?m content)"
    using AB(2) by (simp add: source_of_append)
  also have "\<dots> = take (?s - cur) (drop cur content)" by (rule take_take_drop [OF m])
  finally have "source_of (?pre @ A) = take (?s - cur) (drop cur content)" .
  with e AB(3) show ?case by blast
qed

text \<open>
  Claim C2. For every file text and every list of DocumentedUnits (all terminal by
  their type), the inline artifact is the concatenation of its pieces, and its source
  pieces, in order, are exactly the original text: every source byte is kept, unchanged
  and in order, so the text is a subsequence of the output and the output is longer by
  exactly the inserted documentation. The documentation pieces are those of the
  successful units, in unit order: a failed or skipped unit is not annotated. A unit
  is in the error summary, with its reason, exactly when its generation failed. When
  the units before a successful unit do not start after it, its documentation stands
  between the source before its span's start and the source from there on.
\<close>

theorem inline_round_trip:
  "source_of (art_segments (assemble_inline content units)) = content
   \<and> art_text (assemble_inline content units) = render (art_segments (assemble_inline content units))
   \<and> subseq content (art_text (assemble_inline content units))
   \<and> length (art_text (assemble_inline content units))
       = length content + sum_list (map (length \<circ> du_doc) (filter (\<lambda>u. du_status u = Ok) units))
   \<and> docs_of (art_segments (assemble_inline content units))
       = map du_doc (filter (\<lambda>u. du_status u = Ok) units)
   \<and> (\<forall>j e. (j, e) \<in> set (art_errors (assemble_inline content units))
              \<longleftrightarrow> j < length units \<and> du_status (units ! j) = Failed e)
   \<and> (\<forall>us1 u us2. units = us1 @ u # us2 \<and> du_status u = Ok
         \<and> (\<forall>v\<in>set us1. sp_start (du_span v) \<le> sp_start (du_span u)) \<longrightarrow>
         (\<exists>A B. art_segments (assemble_inline content units) = A @ Doc (du_doc u) # B
            \<and> source_of A = take (sp_start (du_span u)) content
            \<and> source_of B = drop (sp_start (du_span u)) content))"
proof -
  let ?segs = "inline_segments content 0 units"
  have segs: "art_segments (assemble_inline content units) = ?segs"
    and rendered: "art_text (assemble_inline content units) = render ?segs"
    and errs: "art_errors (assemble_inline content units) = error_summary 0 units"
    by (simp_all add: assemble_inline_def Let_def)
  have src: "source_of ?segs = content" by (simp add: source_of_inline)
  have docs: "docs_of ?segs = map du_doc (filter (\<lambda>u. du_status u = Ok) units)"
    by (rule docs_of_inline)
  have sub: "subseq content (render ?segs)"
    using subseq_source_render [of ?segs] by (simp add: src)
  have len: "length (render ?segs)
       = length content + sum_list (map (length \<circ> du_doc) (filter (\<lambda>u. du_status u = Ok) units))"
    by (simp add: length_render src docs)
  have summary: "\<forall>j e. (j, e) \<in> set (error_summary 0 units)
              \<longleftrightarrow> j < length units \<and> du_status (units ! j) = Failed e"
    by (auto simp: error_summary_iff)
  have pos: "\<forall>us1 u us2. units = us1 @ u # us2 \<and> du_status u = Ok
         \<and> (\<forall>v\<in>set us1. sp_start (du_span v) \<le> sp_start (du_span u)) \<longrightarrow>
         (\<exists>A B. ?segs = A @ Doc (du_doc u) # B
            \<and> source_of A = take (sp_start (du_span u)) content
            \<and> source_of B = drop (sp_start (du_span u)) content)"
  proof (intro allI impI)
    fix us1 u us2
    assume a: "units = us1 @ u # us2 \<and> du_status u = Ok
         \<and> (\<forall>v\<in>set us1. sp_start (du_span v) \<le> sp_start (du_span u))"
    then have "\<forall>v\<in>set us1. sp_start (du_span v) \<le> sp_start (du_span u)"
      and "0 \<le> sp_start (du_span u)" and "du_status u = Ok" by simp_all
    from doc_position [OF this, of content us2] a
    show "\<exists>A B. ?segs = A @ Doc (du_doc u) # B
            \<and> source_of A = take (sp_start (du_span u)) content
            \<and> source_of B = drop (sp_start (du_span u)) content"
      by simp
  qed
  show ?thesis
    unfolding segs rendered errs using src sub len docs summary pos by (intro conjI refl)
qed

lemma demo_assembled:
  "assemble_inline demo_source demo_units =
     \<lparr>art_segments = [Src [], Doc ''# f. '', Src ''def f(): pass; '', Src ''def g(): pass''],
      art_text = ''# f. def f(): pass; def g(): pass'',
      art_errors = [(1, RateLimited)]\<rparr>"
  by (simp add: assemble_inline_def demo_source_def demo_units_def render_def Let_def)

theorem inline_round_trip_witness:
  "source_of (art_segments (assemble_inline demo_source demo_units)) = demo_source
   \<and> art_text (assemble_inline demo_source demo_units) = ''# f. def f(): pass; def g(): pass''
   \<and> (1 < length demo_units \<and> du_status (demo_units ! 1) = Failed RateLimited)
   \<and> (1, RateLimited) \<in> set (art_errors (assemble_inline demo_source demo_units))
   \<and> (0, RateLimited) \<notin> set (art_errors (assemble_inline demo_source demo_units))"
proof -
  have a: "1 < length demo_units \<and> du_status (demo_units ! 1) = Failed RateLimited"
    by (simp add: demo_units_def)
  have b: "\<not> (0 < length demo_units \<and> du_status (demo_units ! 0) = Failed RateLimited)"
    by (simp add: demo_units_def)
  from inline_round_trip [of demo_source demo_units]
  have "source_of (art_segments (assemble_inline demo_source demo_units)) = demo_source"
    and "(1, RateLimited) \<in> set (art_errors (assemble_inline demo_source demo_units))"
    and "(0, RateLimited) \<notin> set (art_errors (assemble_inline demo_source demo_units))"
    using a b by blast+
  with a show ?thesis by (simp add: demo_assembled)
qed

end
